theory Spec2Isabelle
  imports Main "HOL-Library.Sublist"
begin

section \<open>The syntax tree visited by the rule\<close>

text \<open>
  The rule \<^verbatim>\<open>import-core-last.ts\<close> is an ESLint listener: the linter walks the syntax
  tree of one file and calls the listener of each node kind. The source file holds two
  versions of the rule; the model is of the second one (from line 53 on), the one with
  the import cache and the fixes. Only the fields the rule reads are kept. A text range
  is a pair of offsets; ESTree declares \<^verbatim>\<open>range\<close> optional, and the rule tests it before
  use in two places, so it is an option there.
\<close>

type_synonym Range = "nat \<times> nat"

datatype specifier =
    ImportSpecifier (imported_name: string) (local_name: string) (specifier_range: "Range option")
  | ImportDefaultSpecifier (local_name: string) (specifier_range: "Range option")
  | ImportNamespaceSpecifier (local_name: string) (specifier_range: "Range option")

record import_declaration =
  specifiers :: "specifier list"
  source_value :: string
  declaration_range :: Range

datatype expression =
    IdentifierExpr string
  | MemberExpression expression expression "Range option"
  | OtherExpression

record class_declaration =
  class_name :: string
  superClass :: "expression option"

text \<open>
  A type annotation \<^verbatim>\<open>x: T\<close>: the rule reads \<^verbatim>\<open>node.typeAnnotation?.typeAnnotation\<close>, its
  \<^verbatim>\<open>typeName\<close> (present on a type reference only) and its \<^verbatim>\<open>range\<close>. The left side of a
  qualified name is an identifier or again a qualified name.
\<close>

datatype entity_name =
    TSIdentifier string
  | TSQualifiedName entity_name string

datatype type_node =
    TSTypeReference entity_name Range
  | TSOtherType Range

record identifier_node =
  name :: string
  typeAnnotation :: "type_node option"

datatype Node =
    Program
  | ImportDeclaration import_declaration
  | ClassDeclaration class_declaration
  | Identifier identifier_node
  | OtherNode

section \<open>Reports, fixes and the state of the module\<close>

datatype Fix =
    removeRange Range
  | replaceTextRange Range string
  | insertTextAfter import_declaration string

record Report =
  message :: string
  report_node :: Node
  report_fix :: "Fix list"

record ImportCacheRecord =
  fileName :: string
  typeName :: string
  importNode :: import_declaration
  localName :: string

record ImportOrderViolation =
  node :: import_declaration
  vrange :: Range

text \<open>
  The two module-level variables: \<^verbatim>\<open>importCache\<close> (its \<^verbatim>\<open>imports\<close> array) and
  \<^verbatim>\<open>importOrderViolation\<close>. They live as long as the process, across files.
\<close>

record State =
  importCache :: "ImportCacheRecord list"
  importOrderViolation :: "ImportOrderViolation option"

text \<open>
  Reading a property of \<^verbatim>\<open>undefined\<close> throws a TypeError. The rule can do so in two
  places, told apart here: \<^verbatim>\<open>node.specifiers[i + 1].range![0]\<close> in the import listener and
  \<^verbatim>\<open>lastImport.importNode\<close> in \<^verbatim>\<open>reportImportOrderViolations\<close>.
\<close>

datatype Error = TypeError_range | TypeError_importNode

text \<open>
  What a listener does: the reports handed to \<^verbatim>\<open>context.report\<close>, in order, and either
  the new state or the TypeError that ended the traversal.
\<close>

type_synonym Outcome = "Report list \<times> (Error + State)"

section \<open>Strings\<close>

text \<open>\<^verbatim>\<open>String.prototype.includes\<close>: the second string occurs somewhere in the first.\<close>

fun string_includes :: "string \<Rightarrow> string \<Rightarrow> bool" where
  "string_includes [] sub = (sub = [])"
| "string_includes (c # cs) sub = (prefix sub (c # cs) \<or> string_includes cs sub)"

text \<open>\<^verbatim>\<open>Array.prototype.join\<close> on strings.\<close>

fun join :: "string \<Rightarrow> string list \<Rightarrow> string" where
  "join sep [] = []"
| "join sep [x] = x"
| "join sep (x # y # ys) = x @ sep @ join sep (y # ys)"

definition qualifier_message :: string where
  "qualifier_message = ''To avoid merge conflicts with the v2-main branch, the \"Construct\" type must be referenced without a qualifier (e.g. \"Construct\" instead of \"CoreConstruct\")''"

definition order_message :: string where
  "order_message = ''To avoid merge conflicts with the v2 branch, \"CoreConstruct\" import should be in its own line''"

text \<open>The lines both fixes put in front of the import they insert.\<close>

definition separate_import :: "string \<Rightarrow> string" where
  "separate_import addImport = join [CHR ''\<newline>'']
     ['''',
      '''',
      ''// keep this import separate from other imports to reduce chance for merge conflicts with v2-main'',
      ''// eslint-disable-next-line no-duplicate-imports, import/order'',
      addImport]"

section \<open>The import cache\<close>

text \<open>
  Modelled from the spec: the class \<^verbatim>\<open>ImportCache\<close> of \<^verbatim>\<open>../private/import-cache\<close> is not
  among the sources. The spec (4.1): \<^verbatim>\<open>record(binding)\<close> appends an ImportBinding; no
  eviction, no deduplication. The rule reads the array \<^verbatim>\<open>imports\<close> itself.
\<close>

definition ImportCache_record :: "ImportCacheRecord list \<Rightarrow> ImportCacheRecord \<Rightarrow> ImportCacheRecord list" where
  "ImportCache_record imports r = imports @ [r]"

text \<open>\<^verbatim>\<open>importCache.imports.filter(x => x.fileName === context.getFilename())\<close>\<close>

definition imports_of :: "string \<Rightarrow> ImportCacheRecord list \<Rightarrow> ImportCacheRecord list" where
  "imports_of file cache = filter (\<lambda>x. fileName x = file) cache"

section \<open>The qualifier fix: \<^verbatim>\<open>report\<close>\<close>

text \<open>\<^verbatim>\<open>const findImport = (x: string) => imports.find(i => i.localName === x)\<close>\<close>

definition findImport :: "ImportCacheRecord list \<Rightarrow> string \<Rightarrow> ImportCacheRecord option" where
  "findImport imports x = find (\<lambda>i. localName i = x) imports"

text \<open>
  The two variables \<^verbatim>\<open>replaceBy\<close> and \<^verbatim>\<open>addImport\<close> of the fix, as the if-chain of
  \<^verbatim>\<open>report\<close> sets them from the three lookups in the file's imports.
\<close>

definition replaceBy_addImport :: "ImportCacheRecord list \<Rightarrow> string \<times> string option" where
  "replaceBy_addImport imports =
     (let coreConstruct = findImport imports ''@aws-cdk/core.Construct'';
          coreCoreConstruct = findImport imports ''@aws-cdk/core.CoreConstruct'';
          constructsConstruct = findImport imports ''constructs.Construct''
      in if coreConstruct \<noteq> None then (''Construct'', None)
         else if coreCoreConstruct \<noteq> None then (''CoreConstruct'', None)
         else if constructsConstruct \<noteq> None then
           (''CoreConstruct'', Some (''import { Construct as '' @ ''CoreConstruct'' @ '' } from '@aws-cdk/core';''))
         else (''Construct'', Some (''import { '' @ ''Construct'' @ '' } from '@aws-cdk/core';'')))"

text \<open>
  The fix function of \<^verbatim>\<open>report\<close>. ESLint calls it when the problem is reported, so it
  sees the cache as it is then. The insertion is guarded by \<^verbatim>\<open>if (lastImport)\<close>.
\<close>

definition qualifier_fix :: "string \<Rightarrow> ImportCacheRecord list \<Rightarrow> Range \<Rightarrow> Fix list" where
  "qualifier_fix file cache replaceRange =
     (let imports = imports_of file cache in
      case replaceBy_addImport imports of (replaceBy, addImport) \<Rightarrow>
        [replaceTextRange replaceRange replaceBy] @
        (case addImport of
           None \<Rightarrow> []
         | Some imp \<Rightarrow>
             (case imports of
                [] \<Rightarrow> []
              | _ # _ \<Rightarrow> [insertTextAfter (importNode (last imports)) (separate_import imp)])))"

definition report :: "string \<Rightarrow> ImportCacheRecord list \<Rightarrow> Node \<Rightarrow> Range \<Rightarrow> Report" where
  "report file cache n replaceRange =
     \<lparr>message = qualifier_message, report_node = n,
      report_fix = qualifier_fix file cache replaceRange\<rparr>"

section \<open>The isolation fix: \<^verbatim>\<open>reportImportOrderViolations\<close>\<close>

text \<open>
  Nothing is reported while the slot is empty. Otherwise the fix removes the stored range
  and inserts after \<^verbatim>\<open>imports[imports.length - 1]\<close>, which is \<^verbatim>\<open>undefined\<close> when the file has
  no recorded import: reading its \<^verbatim>\<open>importNode\<close> throws. The slot is left as it is.
\<close>

definition reportImportOrderViolations :: "string \<Rightarrow> State \<Rightarrow> Error + Report list" where
  "reportImportOrderViolations file st =
     (case importOrderViolation st of
        None \<Rightarrow> Inr []
      | Some violation \<Rightarrow>
          (let imports = imports_of file (importCache st) in
           case imports of
             [] \<Rightarrow> Inl TypeError_importNode
           | _ # _ \<Rightarrow>
               Inr [\<lparr>message = order_message,
                     report_node = ImportDeclaration (node violation),
                     report_fix =
                       [removeRange (vrange violation),
                        insertTextAfter (importNode (last imports))
                          (separate_import
                             (''import { Construct as CoreConstruct } from '@aws-cdk/core'' @ [CHR 0x27]))]\<rparr>]))"

section \<open>The listeners\<close>

fun specifier_typeName :: "specifier \<Rightarrow> string" where
  "specifier_typeName (ImportSpecifier imp loc r) = imp"
| "specifier_typeName (ImportDefaultSpecifier loc r) = loc"
| "specifier_typeName (ImportNamespaceSpecifier loc r) = loc"

text \<open>
  Lines 101 to 110: the value of the slot after specifier \<open>s\<close> at index \<open>i\<close>, from the
  value \<open>cur\<close> before. Past the last index \<^verbatim>\<open>node.specifiers[i + 1]\<close> is \<^verbatim>\<open>undefined\<close>.
\<close>

definition orderViolation_at ::
  "import_declaration \<Rightarrow> nat \<Rightarrow> specifier \<Rightarrow> ImportOrderViolation option
    \<Rightarrow> Error + ImportOrderViolation option" where
  "orderViolation_at d i s cur =
     (case specifier_range s of
        None \<Rightarrow> Inr cur
      | Some r \<Rightarrow>
          if local_name s = ''CoreConstruct'' then
            if length (specifiers d) > 1 then
              if i = length (specifiers d) - 1 then Inr (Some \<lparr>node = d, vrange = r\<rparr>)
              else if i + 1 < length (specifiers d) then
                (case specifier_range (specifiers d ! (i + 1)) of
                   None \<Rightarrow> Inl TypeError_range
                 | Some nr \<Rightarrow> Inr (Some \<lparr>node = d, vrange = (fst r, fst nr)\<rparr>))
              else Inl TypeError_range
            else Inr cur
          else Inr cur)"

text \<open>The body of the loop over \<^verbatim>\<open>node.specifiers.entries()\<close>.\<close>

definition specifier_step ::
  "string \<Rightarrow> import_declaration \<Rightarrow> nat \<times> specifier \<Rightarrow> State \<Rightarrow> Error + State" where
  "specifier_step file d e st =
     (case e of (i, s) \<Rightarrow>
        (case orderViolation_at d i s (importOrderViolation st) of
           Inl err \<Rightarrow> Inl err
         | Inr v \<Rightarrow>
             Inr \<lparr>importCache =
                    ImportCache_record (importCache st)
                      \<lparr>fileName = file, typeName = specifier_typeName s, importNode = d,
                       localName = source_value d @ ''.'' @ local_name s\<rparr>,
                  importOrderViolation = v\<rparr>))"

fun for_of :: "('a \<Rightarrow> 's \<Rightarrow> Error + 's) \<Rightarrow> 'a list \<Rightarrow> 's \<Rightarrow> Error + 's" where
  "for_of body [] st = Inr st"
| "for_of body (x # xs) st =
     (case body x st of Inl err \<Rightarrow> Inl err | Inr st' \<Rightarrow> for_of body xs st')"

definition on_Program :: "State \<Rightarrow> Outcome" where
  "on_Program st = ([], Inr (st\<lparr>importOrderViolation := None\<rparr>))"

definition on_ImportDeclaration :: "string \<Rightarrow> import_declaration \<Rightarrow> State \<Rightarrow> Outcome" where
  "on_ImportDeclaration file d st =
     ([], for_of (specifier_step file d) (enumerate 0 (specifiers d)) st)"

text \<open>
  \<^verbatim>\<open>baseClass\<close> is the name of the property when it is an identifier. The qualifier
  (\<^verbatim>\<open>sc.object\<close>) is not read.
\<close>

definition on_ClassDeclaration :: "string \<Rightarrow> class_declaration \<Rightarrow> State \<Rightarrow> Outcome" where
  "on_ClassDeclaration file c st =
     (case superClass c of
        Some (MemberExpression obj prop sc_range) \<Rightarrow>
          (let baseClass = (case prop of IdentifierExpr n \<Rightarrow> Some n | _ \<Rightarrow> None);
               reported =
                 (case sc_range of
                    Some r \<Rightarrow>
                      if baseClass = Some ''Construct''
                      then [report file (importCache st) (ClassDeclaration c) r] else []
                  | None \<Rightarrow> [])
           in if baseClass = Some ''CoreConstruct'' then
                (case reportImportOrderViolations file st of
                   Inl err \<Rightarrow> (reported, Inl err)
                 | Inr rs \<Rightarrow> (reported @ rs, Inr st))
              else (reported, Inr st))
      | _ \<Rightarrow> ([], Inr st))"

text \<open>
  \<^verbatim>\<open>type?.left.name\<close> is the name of the left side when that is an identifier and
  \<^verbatim>\<open>undefined\<close> when it is itself a qualified name.
\<close>

fun left_name :: "entity_name \<Rightarrow> string option" where
  "left_name (TSIdentifier n) = Some n"
| "left_name (TSQualifiedName l r) = None"

definition on_Identifier :: "string \<Rightarrow> identifier_node \<Rightarrow> State \<Rightarrow> Outcome" where
  "on_Identifier file n st =
     (let reported =
            (case typeAnnotation n of
               Some (TSTypeReference (TSQualifiedName left right) r) \<Rightarrow>
                 if right = ''Construct'' \<and> left_name left \<noteq> Some ''constructs''
                 then [report file (importCache st) (Identifier n) r] else []
             | _ \<Rightarrow> [])
      in if name n = ''CoreConstruct'' then
           (case reportImportOrderViolations file st of
              Inl err \<Rightarrow> (reported, Inl err)
            | Inr rs \<Rightarrow> (reported @ rs, Inr st))
         else (reported, Inr st))"

text \<open>
  \<^verbatim>\<open>create\<close> returns the listeners for one file: none at all (\<^verbatim>\<open>{}\<close>) when the file name
  includes \<^verbatim>\<open>@aws-cdk/core\<close>.
\<close>

definition create :: "string \<Rightarrow> Node \<Rightarrow> State \<Rightarrow> Outcome" where
  "create file =
     (if string_includes file ''@aws-cdk/core'' then (\<lambda>n st. ([], Inr st))
      else (\<lambda>n st.
        case n of
          Program \<Rightarrow> on_Program st
        | ImportDeclaration d \<Rightarrow> on_ImportDeclaration file d st
        | ClassDeclaration c \<Rightarrow> on_ClassDeclaration file c st
        | Identifier i \<Rightarrow> on_Identifier file i st
        | OtherNode \<Rightarrow> ([], Inr st)))"

section \<open>The linter's side\<close>

text \<open>
  The linter calls the listeners on the nodes of a file in document order; a listener
  that throws ends the traversal. \<open>lint_file\<close> is one file of a run.
\<close>

fun traverse :: "(Node \<Rightarrow> State \<Rightarrow> Outcome) \<Rightarrow> Node list \<Rightarrow> State \<Rightarrow> Outcome" where
  "traverse listener [] st = ([], Inr st)"
| "traverse listener (n # ns) st =
     (case listener n st of
        (rs, Inl err) \<Rightarrow> (rs, Inl err)
      | (rs, Inr st') \<Rightarrow> (case traverse listener ns st' of (rs', res) \<Rightarrow> (rs @ rs', res)))"

definition lint_file :: "string \<Rightarrow> Node list \<Rightarrow> State \<Rightarrow> Outcome" where
  "lint_file file nodes st = traverse (create file) nodes st"

text \<open>
  ESLint's fixer: \<^verbatim>\<open>removeRange\<close> replaces the text from the first offset up to, not
  including, the second by nothing. \<open>slice_text\<close> is the text of a range.
\<close>

definition slice_text :: "string \<Rightarrow> Range \<Rightarrow> string" where
  "slice_text src r = take (snd r - fst r) (drop (fst r) src)"

definition apply_removeRange :: "string \<Rightarrow> Range \<Rightarrow> string" where
  "apply_removeRange src r = take (fst r) src @ drop (snd r) src"




section \<open>Names used in the statements\<close>

text \<open>The two import lines the qualifier fix can add.\<close>

definition aliased_import :: string where
  "aliased_import = ''import { Construct as CoreConstruct } from '@aws-cdk/core';''"

definition plain_import :: string where
  "plain_import = ''import { Construct } from '@aws-cdk/core';''"

text \<open>The record the import listener makes for one specifier.\<close>

definition cache_record :: "string \<Rightarrow> import_declaration \<Rightarrow> specifier \<Rightarrow> ImportCacheRecord" where
  "cache_record file d s =
     \<lparr>fileName = file, typeName = specifier_typeName s, importNode = d,
      localName = source_value d @ ''.'' @ local_name s\<rparr>"

text \<open>The records the import listener makes for a declaration, one for each specifier.\<close>

definition recorded :: "string \<Rightarrow> import_declaration \<Rightarrow> ImportCacheRecord list" where
  "recorded file d = map (cache_record file d) (specifiers d)"



subsection \<open>The delete range of an isolation violation\<close>

text \<open>
  The range as the spec words it, for the specifier at index \<open>i\<close> of a declaration whose
  specifiers all have a range: the specifier's own range when it is the last one, and
  otherwise from its start to the start of the next specifier.
\<close>

definition alias_range :: "import_declaration \<Rightarrow> nat \<Rightarrow> Range" where
  "alias_range d i =
     (let r = the (specifier_range (specifiers d ! i)) in
      if i = length (specifiers d) - 1 then r
      else (fst r, fst (the (specifier_range (specifiers d ! (i + 1))))))"

definition specifier_ranges :: "import_declaration \<Rightarrow> Range list" where
  "specifier_ranges d = map (\<lambda>s. the (specifier_range s)) (specifiers d)"

text \<open>
  The specifiers of a declaration lie in the text \<open>src\<close> one after the other: each range
  is well formed and inside the text, and each ends before the next begins.
\<close>

definition document_order :: "string \<Rightarrow> import_declaration \<Rightarrow> bool" where
  "document_order src d \<longleftrightarrow>
     sorted_wrt (\<lambda>p q. snd p \<le> fst q) (specifier_ranges d) \<and>
     list_all (\<lambda>p. fst p \<le> snd p \<and> snd p \<le> length src) (specifier_ranges d)"

subsection \<open>Nodes and states\<close>






text \<open>
  Two states that differ at most in the bindings recorded for files other than \<open>file\<close>:
  the part of the cache that \<open>file\<close> filters out is the same, and so is the slot.
\<close>

definition same_for :: "string \<Rightarrow> State \<Rightarrow> State \<Rightarrow> bool" where
  "same_for file s t \<longleftrightarrow>
     imports_of file (importCache s) = imports_of file (importCache t) \<and>
     importOrderViolation s = importOrderViolation t"

fun same_result :: "string \<Rightarrow> Error + State \<Rightarrow> Error + State \<Rightarrow> bool" where
  "same_result file (Inl e) (Inl e') = (e = e')"
| "same_result file (Inr s) (Inr t) = same_for file s t"
| "same_result file a b = False"

text \<open>
  The invariant behind the isolation fix: while the slot is set, the file has at least one
  recorded import.
\<close>

definition pending_ok :: "string \<Rightarrow> State \<Rightarrow> bool" where
  "pending_ok file st \<longleftrightarrow>
     importOrderViolation st = None \<or> imports_of file (importCache st) \<noteq> []"

subsection \<open>Example import declarations\<close>

text \<open>\<^verbatim>\<open>import { Construct } from '@aws-cdk/core';\<close>\<close>

definition import_core :: import_declaration where
  "import_core =
     \<lparr>specifiers = [ImportSpecifier ''Construct'' ''Construct'' (Some (9, 18))],
      source_value = ''@aws-cdk/core'', declaration_range = (0, 42)\<rparr>"

text \<open>\<^verbatim>\<open>import { Construct as CoreConstruct } from '@aws-cdk/core';\<close>\<close>

definition import_core_alias :: import_declaration where
  "import_core_alias =
     \<lparr>specifiers = [ImportSpecifier ''Construct'' ''CoreConstruct'' (Some (9, 35))],
      source_value = ''@aws-cdk/core'', declaration_range = (0, 59)\<rparr>"

text \<open>\<^verbatim>\<open>import { Construct } from 'constructs';\<close>\<close>

definition import_constructs :: import_declaration where
  "import_constructs =
     \<lparr>specifiers = [ImportSpecifier ''Construct'' ''Construct'' (Some (9, 18))],
      source_value = ''constructs'', declaration_range = (0, 39)\<rparr>"

text \<open>\<^verbatim>\<open>import * as cdk from '@aws-cdk/core';\<close>\<close>

definition import_cdk :: import_declaration where
  "import_cdk =
     \<lparr>specifiers = [ImportNamespaceSpecifier ''cdk'' (Some (7, 15))],
      source_value = ''@aws-cdk/core'', declaration_range = (0, 37)\<rparr>"

text \<open>\<^verbatim>\<open>import * as constructs from 'constructs';\<close>\<close>

definition import_constructs_ns :: import_declaration where
  "import_constructs_ns =
     \<lparr>specifiers = [ImportNamespaceSpecifier ''constructs'' (Some (7, 22))],
      source_value = ''constructs'', declaration_range = (0, 41)\<rparr>"

text \<open>\<^verbatim>\<open>import { A, CoreConstruct, B } from 'm';\<close> and its text.\<close>

definition import_mixed :: import_declaration where
  "import_mixed =
     \<lparr>specifiers = [ImportSpecifier ''A'' ''A'' (Some (9, 10)),
                    ImportSpecifier ''CoreConstruct'' ''CoreConstruct'' (Some (12, 25)),
                    ImportSpecifier ''B'' ''B'' (Some (27, 28))],
      source_value = ''m'', declaration_range = (0, 40)\<rparr>"

definition src_mixed :: string where
  "src_mixed = ''import { A, CoreConstruct, B } from 'm';''"

text \<open>\<^verbatim>\<open>import { A, CoreConstruct } from 'm';\<close> and its text.\<close>

definition import_last :: import_declaration where
  "import_last =
     \<lparr>specifiers = [ImportSpecifier ''A'' ''A'' (Some (9, 10)),
                    ImportSpecifier ''CoreConstruct'' ''CoreConstruct'' (Some (12, 25))],
      source_value = ''m'', declaration_range = (0, 37)\<rparr>"

definition src_last :: string where
  "src_last = ''import { A, CoreConstruct } from 'm';''"

subsection \<open>Example nodes and states\<close>

text \<open>\<^verbatim>\<open>class Foo extends ns.Construct {}\<close>\<close>

definition class_extends_ns :: class_declaration where
  "class_extends_ns =
     \<lparr>class_name = ''Foo'',
      superClass = Some (MemberExpression (IdentifierExpr ''ns'') (IdentifierExpr ''Construct'')
                          (Some (18, 30)))\<rparr>"

text \<open>\<^verbatim>\<open>class X extends constructs.Construct {}\<close>\<close>

definition class_extends_constructs :: class_declaration where
  "class_extends_constructs =
     \<lparr>class_name = ''X'',
      superClass = Some (MemberExpression (IdentifierExpr ''constructs'')
                          (IdentifierExpr ''Construct'') (Some (16, 36)))\<rparr>"

text \<open>\<^verbatim>\<open>scope: cdk.Construct\<close> and \<^verbatim>\<open>scope: constructs.Construct\<close>\<close>

definition scope_cdk :: identifier_node where
  "scope_cdk =
     \<lparr>name = ''scope'',
      typeAnnotation = Some (TSTypeReference (TSQualifiedName (TSIdentifier ''cdk'') ''Construct'')
                              (7, 20))\<rparr>"

definition scope_constructs :: identifier_node where
  "scope_constructs =
     \<lparr>name = ''scope'',
      typeAnnotation =
        Some (TSTypeReference (TSQualifiedName (TSIdentifier ''constructs'') ''Construct'')
               (7, 27))\<rparr>"

text \<open>The state of a process that has linted nothing yet.\<close>

definition empty_state :: State where
  "empty_state = \<lparr>importCache = [], importOrderViolation = None\<rparr>"

text \<open>A reference to the alias, as in \<^verbatim>\<open>class Foo extends CoreConstruct {}\<close>.\<close>

definition use_alias :: identifier_node where
  "use_alias = \<lparr>name = ''CoreConstruct'', typeAnnotation = None\<rparr>"

text \<open>
  A state left behind by another file, \<^verbatim>\<open>lib/b.ts\<close>: one binding in the cache and the slot
  still set.
\<close>

definition stale_state :: State where
  "stale_state =
     \<lparr>importCache = recorded ''lib/b.ts'' import_core,
      importOrderViolation = Some \<lparr>node = import_mixed, vrange = (12, 27)\<rparr>\<rparr>"

text \<open>A state in which only the file \<^verbatim>\<open>lib/b.ts\<close> has bindings.\<close>

definition other_file_state :: State where
  "other_file_state =
     \<lparr>importCache = recorded ''lib/b.ts'' import_core @ recorded ''lib/b.ts'' import_core_alias,
      importOrderViolation = None\<rparr>"

text \<open>
  The cache of a file \<^verbatim>\<open>lib/a.ts\<close> that binds \<^verbatim>\<open>Construct\<close> from \<^verbatim>\<open>@aws-cdk/core\<close>,
  \<^verbatim>\<open>CoreConstruct\<close> from \<^verbatim>\<open>@aws-cdk/core\<close> and \<^verbatim>\<open>Construct\<close> from \<^verbatim>\<open>constructs\<close>.
\<close>

definition three_bindings :: "ImportCacheRecord list" where
  "three_bindings =
     recorded ''lib/a.ts'' import_core @ recorded ''lib/a.ts'' import_core_alias @
     recorded ''lib/a.ts'' import_constructs"

section \<open>The decision table of the qualifier fix\<close>

lemmas example_imports =
  import_core_def import_core_alias_def import_constructs_def import_cdk_def
  import_constructs_ns_def import_mixed_def import_last_def

lemma findImport_bound:
  "findImport ims k \<noteq> None \<longleftrightarrow> (\<exists>i \<in> set ims. localName i = k)"
  by (auto simp: findImport_def find_None_iff)

lemma replaceBy_addImport_cases:
  "replaceBy_addImport ims =
     (if \<exists>i \<in> set ims. localName i = ''@aws-cdk/core.Construct'' then (''Construct'', None)
      else if \<exists>i \<in> set ims. localName i = ''@aws-cdk/core.CoreConstruct''
        then (''CoreConstruct'', None)
      else if \<exists>i \<in> set ims. localName i = ''constructs.Construct''
        then (''CoreConstruct'', Some aliased_import)
      else (''Construct'', Some plain_import))"
  unfolding replaceBy_addImport_def Let_def findImport_bound aliased_import_def plain_import_def
  by simp

text \<open>
  C1, as the claim states it, fails in two places. In the file with the three bindings
  the alias from \<^verbatim>\<open>@aws-cdk/core\<close> and \<^verbatim>\<open>Construct\<close> from \<^verbatim>\<open>constructs\<close> both exist, and the
  fix chooses \<^verbatim>\<open>Construct\<close>, not the alias: the first lookup succeeds too. In a file
  without imports none of the lookups succeeds, the plain import is asked for, and no
  import is added.
\<close>

theorem qualifier_decision_table_counterexample:
  "findImport (imports_of ''lib/a.ts'' three_bindings) ''@aws-cdk/core.CoreConstruct'' \<noteq> None \<and>
   findImport (imports_of ''lib/a.ts'' three_bindings) ''constructs.Construct'' \<noteq> None \<and>
   replaceBy_addImport (imports_of ''lib/a.ts'' three_bindings) = (''Construct'', None) \<and>
   qualifier_fix ''lib/a.ts'' three_bindings (10, 23) = [replaceTextRange (10, 23) ''Construct''] \<and>
   replaceBy_addImport (imports_of ''lib/a.ts'' []) = (''Construct'', Some plain_import) \<and>
   qualifier_fix ''lib/a.ts'' [] (10, 23) = [replaceTextRange (10, 23) ''Construct'']"
  by (simp add: three_bindings_def imports_of_def recorded_def cache_record_def example_imports
      findImport_def replaceBy_addImport_def qualifier_fix_def plain_import_def)

text \<open>
  C1, amended. The three lookups are made in the file's part of the cache, under the keys
  \<^verbatim>\<open>@aws-cdk/core.Construct\<close>, \<^verbatim>\<open>@aws-cdk/core.CoreConstruct\<close> and \<^verbatim>\<open>constructs.Construct\<close>.
  If the first succeeds the reference is replaced by \<^verbatim>\<open>Construct\<close> and no import is asked
  for; otherwise, if the second succeeds, by \<^verbatim>\<open>CoreConstruct\<close> and no import is asked for;
  otherwise, if the third succeeds, by \<^verbatim>\<open>CoreConstruct\<close>, and the aliased import is asked
  for and inserted after the last import of the file; if none succeeds, by \<^verbatim>\<open>Construct\<close>,
  and the plain import is asked for, and inserted after the last import when the file
  has one. Whenever the second and the third both succeed no import is asked for, and
  the replacement is the alias unless the first lookup succeeded as well.
\<close>

theorem qualifier_decision_table:
  "let ims = imports_of file cache;
       first = (\<exists>i \<in> set ims. localName i = ''@aws-cdk/core.Construct'');
       second = (\<exists>i \<in> set ims. localName i = ''@aws-cdk/core.CoreConstruct'');
       third = (\<exists>i \<in> set ims. localName i = ''constructs.Construct'');
       after_last = (\<lambda>imp. insertTextAfter (importNode (last ims)) (separate_import imp))
   in (first \<longrightarrow>
         replaceBy_addImport ims = (''Construct'', None) \<and>
         qualifier_fix file cache r = [replaceTextRange r ''Construct'']) \<and>
      (\<not> first \<and> second \<longrightarrow>
         replaceBy_addImport ims = (''CoreConstruct'', None) \<and>
         qualifier_fix file cache r = [replaceTextRange r ''CoreConstruct'']) \<and>
      (\<not> first \<and> \<not> second \<and> third \<longrightarrow>
         replaceBy_addImport ims = (''CoreConstruct'', Some aliased_import) \<and>
         qualifier_fix file cache r =
           [replaceTextRange r ''CoreConstruct'', after_last aliased_import]) \<and>
      (\<not> first \<and> \<not> second \<and> \<not> third \<longrightarrow>
         replaceBy_addImport ims = (''Construct'', Some plain_import) \<and>
         (ims \<noteq> [] \<longrightarrow>
            qualifier_fix file cache r =
              [replaceTextRange r ''Construct'', after_last plain_import])) \<and>
      (second \<and> third \<longrightarrow>
         replaceBy_addImport ims = (if first then ''Construct'' else ''CoreConstruct'', None))"
  unfolding Let_def qualifier_fix_def replaceBy_addImport_cases
  by (cases "imports_of file cache") auto

theorem qualifier_decision_table_witness:
  "qualifier_fix ''lib/a.ts''
     (recorded ''lib/a.ts'' import_core @ recorded ''lib/a.ts'' import_core_alias) (10, 23)
     = [replaceTextRange (10, 23) ''Construct''] \<and>
   qualifier_fix ''lib/a.ts''
     (recorded ''lib/a.ts'' import_core_alias @ recorded ''lib/a.ts'' import_constructs) (10, 23)
     = [replaceTextRange (10, 23) ''CoreConstruct''] \<and>
   qualifier_fix ''lib/a.ts'' (recorded ''lib/a.ts'' import_constructs) (10, 23)
     = [replaceTextRange (10, 23) ''CoreConstruct'',
        insertTextAfter import_constructs (separate_import aliased_import)] \<and>
   qualifier_fix ''lib/a.ts'' (recorded ''lib/a.ts'' import_cdk) (10, 23)
     = [replaceTextRange (10, 23) ''Construct'',
        insertTextAfter import_cdk (separate_import plain_import)]"
proof -
  have a: "qualifier_fix ''lib/a.ts''
      (recorded ''lib/a.ts'' import_core @ recorded ''lib/a.ts'' import_core_alias) (10, 23)
     = [replaceTextRange (10, 23) ''Construct'']"
    using qualifier_decision_table
      [of "''lib/a.ts''"
          "recorded ''lib/a.ts'' import_core @ recorded ''lib/a.ts'' import_core_alias" "(10, 23)"]
    unfolding Let_def by (simp add: imports_of_def recorded_def cache_record_def example_imports)
  have b: "qualifier_fix ''lib/a.ts''
      (recorded ''lib/a.ts'' import_core_alias @ recorded ''lib/a.ts'' import_constructs) (10, 23)
     = [replaceTextRange (10, 23) ''CoreConstruct'']"
    using qualifier_decision_table
      [of "''lib/a.ts''"
          "recorded ''lib/a.ts'' import_core_alias @ recorded ''lib/a.ts'' import_constructs"
          "(10, 23)"]
    unfolding Let_def by (simp add: imports_of_def recorded_def cache_record_def example_imports)
  have c: "qualifier_fix ''lib/a.ts'' (recorded ''lib/a.ts'' import_constructs) (10, 23)
     = [replaceTextRange (10, 23) ''CoreConstruct'',
        insertTextAfter import_constructs (separate_import aliased_import)]"
    using qualifier_decision_table
      [of "''lib/a.ts''" "recorded ''lib/a.ts'' import_constructs" "(10, 23)"]
    unfolding Let_def by (simp add: imports_of_def recorded_def cache_record_def example_imports)
  have d: "qualifier_fix ''lib/a.ts'' (recorded ''lib/a.ts'' import_cdk) (10, 23)
     = [replaceTextRange (10, 23) ''Construct'',
        insertTextAfter import_cdk (separate_import plain_import)]"
    using qualifier_decision_table
      [of "''lib/a.ts''" "recorded ''lib/a.ts'' import_cdk" "(10, 23)"]
    unfolding Let_def by (simp add: imports_of_def recorded_def cache_record_def example_imports)
  from a b c d show ?thesis by blast
qed

section \<open>A file without imports\<close>

text \<open>
  C3, as the claim states it, fails: in a file with no recorded import, where the table
  asks for the plain import, the fix of \<^verbatim>\<open>class Foo extends ns.Construct {}\<close> is not empty.
\<close>

theorem no_import_fix_counterexample:
  "imports_of ''lib/a.ts'' (importCache empty_state) = [] \<and>
   snd (replaceBy_addImport (imports_of ''lib/a.ts'' (importCache empty_state)))
     = Some plain_import \<and>
   lint_file ''lib/a.ts'' [Program, ClassDeclaration class_extends_ns] empty_state =
     ([\<lparr>message = qualifier_message, report_node = ClassDeclaration class_extends_ns,
        report_fix = [replaceTextRange (18, 30) ''Construct'']\<rparr>], Inr empty_state) \<and>
   report_fix (report ''lib/a.ts'' (importCache empty_state)
     (ClassDeclaration class_extends_ns) (18, 30)) \<noteq> []"
  by (simp add: lint_file_def create_def on_Program_def on_ClassDeclaration_def
      class_extends_ns_def empty_state_def report_def qualifier_fix_def imports_of_def
      replaceBy_addImport_def findImport_def plain_import_def)

text \<open>
  C3, amended. In a file with no recorded import the table asks for the plain import, and
  the fix of a qualifier violation is exactly one edit: the replacement of the reference
  by \<^verbatim>\<open>Construct\<close>. Only the insertion of the import is left out.
\<close>

theorem no_import_fix:
  "imports_of file cache = [] \<Longrightarrow>
     snd (replaceBy_addImport (imports_of file cache)) = Some plain_import \<and>
     report_fix (report file cache n r) = [replaceTextRange r ''Construct'']"
  by (simp add: report_def qualifier_fix_def replaceBy_addImport_cases)

theorem no_import_fix_witness:
  "imports_of ''lib/a.ts'' (recorded ''lib/b.ts'' import_constructs) = [] \<and>
   snd (replaceBy_addImport (imports_of ''lib/a.ts'' (recorded ''lib/b.ts'' import_constructs)))
     = Some plain_import \<and>
   report_fix (report ''lib/a.ts'' (recorded ''lib/b.ts'' import_constructs)
     (ClassDeclaration class_extends_ns) (18, 30)) = [replaceTextRange (18, 30) ''Construct'']"
proof -
  have e: "imports_of ''lib/a.ts'' (recorded ''lib/b.ts'' import_constructs) = []"
    by (simp add: imports_of_def recorded_def cache_record_def import_constructs_def)
  from e no_import_fix [OF e] show ?thesis by simp
qed

section \<open>Which references are reported\<close>

lemma messages_differ: "order_message \<noteq> qualifier_message"
  by (simp add: order_message_def qualifier_message_def)

text \<open>
  The class listener reports every superclass \<^verbatim>\<open>q.Construct\<close> that has a range, whatever
  the qualifier \<open>q\<close> is.
\<close>

lemma on_ClassDeclaration_qualifier_reports:
  "superClass c = Some (MemberExpression q (IdentifierExpr ''Construct'') (Some r)) \<Longrightarrow>
   on_ClassDeclaration file c st = ([report file (importCache st) (ClassDeclaration c) r], Inr st)"
  by (simp add: on_ClassDeclaration_def)

text \<open>
  C4 fails on the code. \<^verbatim>\<open>class X extends constructs.Construct {}\<close>, in a file that imports
  \<^verbatim>\<open>* as constructs from 'constructs'\<close>, is reported, and the fix rewrites the superclass to
  \<^verbatim>\<open>Construct\<close> imported from \<^verbatim>\<open>@aws-cdk/core\<close>. The identifier listener excludes the
  qualifier \<^verbatim>\<open>constructs\<close>; the class listener does not read the qualifier.
\<close>

theorem class_extends_constructs_reported:
  "create ''lib/a.ts'' (ClassDeclaration class_extends_constructs)
     \<lparr>importCache = recorded ''lib/a.ts'' import_constructs_ns, importOrderViolation = None\<rparr> =
   ([\<lparr>message = qualifier_message, report_node = ClassDeclaration class_extends_constructs,
      report_fix = [replaceTextRange (16, 36) ''Construct'',
                    insertTextAfter import_constructs_ns (separate_import plain_import)]\<rparr>],
    Inr \<lparr>importCache = recorded ''lib/a.ts'' import_constructs_ns,
         importOrderViolation = None\<rparr>)"
  by (simp add: create_def on_ClassDeclaration_def class_extends_constructs_def
      report_def qualifier_fix_def imports_of_def replaceBy_addImport_def recorded_def cache_record_def
      findImport_def plain_import_def import_constructs_ns_def)

lemma left_name_constructs:
  "left_name X \<noteq> Some ''constructs'' \<longleftrightarrow> X \<noteq> TSIdentifier ''constructs''"
  by (cases X) auto

lemma order_reports_message:
  "reportImportOrderViolations file st = Inr rs \<Longrightarrow> \<forall>rep \<in> set rs. message rep = order_message"
  by (auto simp: reportImportOrderViolations_def Let_def split: option.splits list.splits)

lemma order_reports_filtered:
  "reportImportOrderViolations file st = Inr rs \<Longrightarrow>
   filter (\<lambda>rep. message rep = qualifier_message) rs = []"
  using order_reports_message [of "file" st rs] messages_differ
  by (auto simp: filter_empty_conv)

lemma create_skipping: "string_includes file ''@aws-cdk/core'' \<Longrightarrow> create file n st = ([], Inr st)"
  by (simp add: create_def)

lemma create_listening:
  "\<not> string_includes file ''@aws-cdk/core'' \<Longrightarrow>
   create file n st =
     (case n of
        Program \<Rightarrow> on_Program st
      | ImportDeclaration d \<Rightarrow> on_ImportDeclaration file d st
      | ClassDeclaration c \<Rightarrow> on_ClassDeclaration file c st
      | Identifier i \<Rightarrow> on_Identifier file i st
      | OtherNode \<Rightarrow> ([], Inr st))"
  by (simp add: create_def)

text \<open>
  C5, as the claim states it, fails in a file the rule skips: there the identifier
  \<^verbatim>\<open>scope: cdk.Construct\<close> is not reported, though \<^verbatim>\<open>cdk\<close> is not \<^verbatim>\<open>constructs\<close>.
\<close>

theorem annotation_skipped_counterexample:
  "typeAnnotation scope_cdk =
     Some (TSTypeReference (TSQualifiedName (TSIdentifier ''cdk'') ''Construct'') (7, 20)) \<and>
   TSIdentifier ''cdk'' \<noteq> TSIdentifier ''constructs'' \<and>
   create ''packages/@aws-cdk/core/lib/stack.ts'' (Identifier scope_cdk) empty_state =
     ([], Inr empty_state)"
  by (simp add: scope_cdk_def create_def)

text \<open>
  C5, amended. For an identifier annotated \<^verbatim>\<open>X.Construct\<close>, the qualifier violations the
  identifier listener reports are: one when the file name does not include
  \<^verbatim>\<open>@aws-cdk/core\<close> and \<open>X\<close> is not the name \<^verbatim>\<open>constructs\<close>, none otherwise. The one reported
  is on the identifier, and its fix replaces the range of the annotation by the name the
  decision table gives, followed by the insertion the table asks for when the file has an
  import.
\<close>

theorem annotation_reported_iff:
  assumes "typeAnnotation n = Some (TSTypeReference (TSQualifiedName X ''Construct'') r)"
  shows "filter (\<lambda>rep. message rep = qualifier_message) (fst (create file (Identifier n) st)) =
      (if \<not> string_includes file ''@aws-cdk/core'' \<and> X \<noteq> TSIdentifier ''constructs''
       then
         (let ims = imports_of file (importCache st) in
          [\<lparr>message = qualifier_message, report_node = Identifier n,
            report_fix =
              replaceTextRange r (fst (replaceBy_addImport ims)) #
              (case snd (replaceBy_addImport ims) of
                 None \<Rightarrow> []
               | Some imp \<Rightarrow>
                   (case ims of
                      [] \<Rightarrow> []
                    | _ # _ \<Rightarrow> [insertTextAfter (importNode (last ims)) (separate_import imp)]))\<rparr>])
       else [])"
proof (cases "string_includes file ''@aws-cdk/core''")
  case True
  then show ?thesis by (simp add: create_skipping)
next
  case False
  with assms order_reports_filtered [of "file" st] show ?thesis
    by (auto simp: create_listening on_Identifier_def left_name_constructs report_def Let_def
        qualifier_fix_def split: sum.splits prod.splits)
qed

theorem annotation_reported_iff_witness:
  "filter (\<lambda>rep. message rep = qualifier_message)
     (fst (create ''lib/a.ts'' (Identifier scope_cdk) empty_state)) =
     [\<lparr>message = qualifier_message, report_node = Identifier scope_cdk,
       report_fix = [replaceTextRange (7, 20) ''Construct'']\<rparr>] \<and>
   filter (\<lambda>rep. message rep = qualifier_message)
     (fst (create ''lib/a.ts'' (Identifier scope_cdk)
        \<lparr>importCache = recorded ''lib/a.ts'' import_constructs, importOrderViolation = None\<rparr>)) =
     [\<lparr>message = qualifier_message, report_node = Identifier scope_cdk,
       report_fix = [replaceTextRange (7, 20) ''CoreConstruct'',
                     insertTextAfter import_constructs (separate_import aliased_import)]\<rparr>] \<and>
   filter (\<lambda>rep. message rep = qualifier_message)
     (fst (create ''lib/a.ts'' (Identifier scope_constructs) empty_state)) = []"
proof -
  have a: "typeAnnotation scope_cdk =
      Some (TSTypeReference (TSQualifiedName (TSIdentifier ''cdk'') ''Construct'') (7, 20))"
    by (simp add: scope_cdk_def)
  have b: "typeAnnotation scope_constructs =
      Some (TSTypeReference (TSQualifiedName (TSIdentifier ''constructs'') ''Construct'') (7, 27))"
    by (simp add: scope_constructs_def)
  have e: "replaceBy_addImport [] = (''Construct'', Some plain_import)"
    by (simp add: replaceBy_addImport_cases)
  have c: "replaceBy_addImport (recorded ''lib/a.ts'' import_constructs) =
      (''CoreConstruct'', Some aliased_import)"
    "imports_of ''lib/a.ts'' (recorded ''lib/a.ts'' import_constructs) =
       recorded ''lib/a.ts'' import_constructs"
    "importNode (last (recorded ''lib/a.ts'' import_constructs)) = import_constructs"
    "imports_of ''lib/a.ts'' [] = []"
    by (simp_all add: replaceBy_addImport_cases recorded_def cache_record_def
        import_constructs_def imports_of_def)
  have d: "(case recorded ''lib/a.ts'' import_constructs of [] \<Rightarrow> [] | x # xs \<Rightarrow> ys) = ys"
    for ys :: "Fix list"
    by (simp add: recorded_def import_constructs_def)
  from annotation_reported_iff [OF a, of "''lib/a.ts''" empty_state]
    annotation_reported_iff [OF a, of "''lib/a.ts''"
      "\<lparr>importCache = recorded ''lib/a.ts'' import_constructs, importOrderViolation = None\<rparr>"]
    annotation_reported_iff [OF b, of "''lib/a.ts''" empty_state]
  show ?thesis
    by (simp add: empty_state_def e c d Let_def)
qed

section \<open>Traversals\<close>

lemma traverse_skipping:
  "string_includes file ''@aws-cdk/core'' \<Longrightarrow> traverse (create file) nodes st = ([], Inr st)"
  by (induction nodes) (simp_all add: create_skipping)


lemma snd_traverse_Cons:
  "snd (traverse l (n # ns) st) =
     (case snd (l n st) of Inl err \<Rightarrow> Inl err | Inr st' \<Rightarrow> snd (traverse l ns st'))"
  by (auto split: prod.splits sum.splits)


lemma not_core_a: "\<not> string_includes ''lib/a.ts'' ''@aws-cdk/core''"
  by simp

section \<open>Files of the core package\<close>

text \<open>
  C9. When the file name includes \<^verbatim>\<open>@aws-cdk/core\<close> there is no listener: whatever the
  nodes of the file are, nothing is reported, and the cache and the slot are as they
  were before.
\<close>

theorem core_files_skipped:
  "string_includes file ''@aws-cdk/core'' \<Longrightarrow> lint_file file nodes st = ([], Inr st)"
  unfolding lint_file_def by (rule traverse_skipping)

theorem core_files_skipped_witness:
  "lint_file ''packages/@aws-cdk/core/lib/stack.ts''
     [Program, ImportDeclaration import_constructs, ClassDeclaration class_extends_ns,
      Identifier scope_cdk] empty_state = ([], Inr empty_state)"
proof -
  have f: "string_includes ''packages/@aws-cdk/core/lib/stack.ts'' ''@aws-cdk/core''"
    by simp
  from core_files_skipped [OF f] show ?thesis .
qed

section \<open>The loop of the import listener\<close>

lemma specifier_step_eq:
  "specifier_step file d (i, s) st =
     (case orderViolation_at d i s (importOrderViolation st) of
        Inl err \<Rightarrow> Inl err
      | Inr v \<Rightarrow> Inr \<lparr>importCache = importCache st @ [cache_record file d s],
                      importOrderViolation = v\<rparr>)"
  by (simp add: specifier_step_def ImportCache_record_def cache_record_def split: sum.splits)

lemma for_of_append:
  "for_of body (xs @ ys) st =
     (case for_of body xs st of Inl err \<Rightarrow> Inl err | Inr st' \<Rightarrow> for_of body ys st')"
  by (induction xs arbitrary: st) (auto split: sum.splits)

lemma orderViolation_at_other:
  "local_name s \<noteq> ''CoreConstruct'' \<Longrightarrow> orderViolation_at d i s cur = Inr cur"
  by (simp add: orderViolation_at_def split: option.splits)

lemma orderViolation_at_alias:
  assumes "local_name s = ''CoreConstruct''" "specifier_range s = Some r"
    "1 < length (specifiers d)" "i < length (specifiers d)"
    "i + 1 < length (specifiers d) \<Longrightarrow> specifier_range (specifiers d ! (i + 1)) = Some nr"
  shows "orderViolation_at d i s cur =
      Inr (Some \<lparr>node = d,
                 vrange = (if i = length (specifiers d) - 1 then r else (fst r, fst nr))\<rparr>)"
  using assms by (auto simp: orderViolation_at_def)

lemma orderViolation_at_defined:
  assumes "\<forall>s \<in> set (specifiers d). specifier_range s \<noteq> None" "i < length (specifiers d)"
  shows "\<exists>v. orderViolation_at d i s cur = Inr v"
proof (cases "i + 1 < length (specifiers d)")
  case True
  then have "specifiers d ! (i + 1) \<in> set (specifiers d)" by simp
  with assms(1) obtain nr where "specifier_range (specifiers d ! (i + 1)) = Some nr" by auto
  then show ?thesis using True by (auto simp: orderViolation_at_def split: option.splits)
next
  case False
  with assms(2) have "i = length (specifiers d) - 1" by arith
  then show ?thesis by (auto simp: orderViolation_at_def split: option.splits)
qed

lemma orderViolation_at_error:
  "orderViolation_at d i s cur = Inl err \<Longrightarrow> err = TypeError_range"
  by (auto simp: orderViolation_at_def split: option.splits if_splits)

text \<open>The cache after the loop: one record more for each specifier.\<close>

lemma for_of_cache:
  "for_of (specifier_step file d) es st = Inr st' \<Longrightarrow>
   importCache st' = importCache st @ map (cache_record file d \<circ> snd) es"
proof (induction es arbitrary: st)
  case Nil
  then show ?case by simp
next
  case (Cons e es)
  obtain i s where e: "e = (i, s)" by (cases e)
  from Cons.prems obtain st1 where
    1: "specifier_step file d (i, s) st = Inr st1" and 2: "for_of (specifier_step file d) es st1 = Inr st'"
    by (auto simp: e split: sum.splits)
  from 1 have "importCache st1 = importCache st @ [cache_record file d s]"
    by (auto simp: specifier_step_eq split: sum.splits)
  with Cons.IH [OF 2] show ?case by (simp add: e)
qed

lemma for_of_slot_unchanged:
  "\<forall>e \<in> set es. local_name (snd e) \<noteq> ''CoreConstruct'' \<Longrightarrow>
   \<exists>st'. for_of (specifier_step file d) es st = Inr st' \<and>
         importOrderViolation st' = importOrderViolation st"
proof (induction es arbitrary: st)
  case Nil
  then show ?case by simp
next
  case (Cons e es)
  obtain i s where e: "e = (i, s)" by (cases e)
  from Cons.prems have s: "local_name s \<noteq> ''CoreConstruct''" by (simp add: e)
  define st1 where "st1 = \<lparr>importCache = importCache st @ [cache_record file d s],
                      importOrderViolation = importOrderViolation st\<rparr>"
  have 1: "specifier_step file d (i, s) st = Inr st1"
    by (simp add: specifier_step_eq orderViolation_at_other [OF s] st1_def)
  from Cons.prems have "\<forall>e \<in> set es. local_name (snd e) \<noteq> ''CoreConstruct''" by simp
  from Cons.IH [OF this, of st1] 1 show ?case by (auto simp: e st1_def)
qed

lemma for_of_defined:
  assumes "\<forall>s \<in> set (specifiers d). specifier_range s \<noteq> None"
  shows "\<forall>e \<in> set es. fst e < length (specifiers d) \<Longrightarrow>
     \<exists>st'. for_of (specifier_step file d) es st = Inr st'"
proof (induction es arbitrary: st)
  case Nil
  then show ?case by simp
next
  case (Cons e es)
  obtain i s where e: "e = (i, s)" by (cases e)
  from Cons.prems have "i < length (specifiers d)" by (simp add: e)
  from orderViolation_at_defined [OF assms this, of s "importOrderViolation st"]
  obtain st1 where 1: "specifier_step file d (i, s) st = Inr st1"
    by (auto simp: specifier_step_eq)
  from Cons.prems have "\<forall>e \<in> set es. fst e < length (specifiers d)" by simp
  from Cons.IH [OF this, of st1] 1 show ?case by (auto simp: e)
qed

lemma for_of_error:
  "for_of (specifier_step file d) es st = Inl err \<Longrightarrow> err = TypeError_range"
proof (induction es arbitrary: st)
  case Nil
  then show ?case by simp
next
  case (Cons e es)
  obtain i s where e: "e = (i, s)" by (cases e)
  from Cons show ?case
    by (auto simp: e specifier_step_eq split: sum.splits dest: orderViolation_at_error)
qed

text \<open>
  The outcome of the import listener when the specifier at index \<open>i\<close> is the last one
  named \<^verbatim>\<open>CoreConstruct\<close>, in a declaration with more than one specifier, all with ranges.
\<close>

lemma on_ImportDeclaration_alias:
  assumes ranges: "\<forall>s \<in> set (specifiers d). specifier_range s \<noteq> None"
    and i: "i < length (specifiers d)"
    and many: "1 < length (specifiers d)"
    and al: "local_name (specifiers d ! i) = ''CoreConstruct''"
    and last: "\<forall>j. i < j \<and> j < length (specifiers d) \<longrightarrow> local_name (specifiers d ! j) \<noteq> ''CoreConstruct''"
  shows "on_ImportDeclaration file d st =
     ([], Inr \<lparr>importCache = importCache st @ recorded file d,
              importOrderViolation = Some \<lparr>node = d, vrange = alias_range d i\<rparr>\<rparr>)"
proof -
  let ?ss = "specifiers d"
  let ?body = "specifier_step file d"
  have split: "enumerate 0 ?ss =
      enumerate 0 (take i ?ss) @ (i, ?ss ! i) # enumerate (Suc i) (drop (Suc i) ?ss)"
  proof -
    have "?ss = take i ?ss @ ?ss ! i # drop (Suc i) ?ss"
      using i by (rule id_take_nth_drop)
    then have "enumerate 0 ?ss = enumerate 0 (take i ?ss @ ?ss ! i # drop (Suc i) ?ss)"
      by simp
    also have "\<dots> = enumerate 0 (take i ?ss) @ (i, ?ss ! i) # enumerate (Suc i) (drop (Suc i) ?ss)"
      using i by (simp add: enumerate_append_eq min_def)
    finally show ?thesis .
  qed
  have "\<forall>e \<in> set (enumerate 0 (take i ?ss)). fst e < length ?ss"
    using i by (auto simp: in_set_enumerate_eq)
  from for_of_defined [OF ranges this, of "file" st]
  obtain st1 where 1: "for_of ?body (enumerate 0 (take i ?ss)) st = Inr st1" by blast
  obtain r where r: "specifier_range (?ss ! i) = Some r"
    using ranges i by (metis nth_mem option.exhaust)
  have nr: "i + 1 < length ?ss \<Longrightarrow>
      specifier_range (?ss ! (i + 1)) = Some (the (specifier_range (?ss ! (i + 1))))"
    using ranges by (metis nth_mem option.exhaust option.sel)
  have v: "orderViolation_at d i (?ss ! i) (importOrderViolation st1) =
      Inr (Some \<lparr>node = d, vrange = alias_range d i\<rparr>)"
    using orderViolation_at_alias [OF al r many i nr, of "importOrderViolation st1"]
    by (simp add: alias_range_def r)
  define st2 where "st2 = \<lparr>importCache = importCache st1 @ [cache_record file d (?ss ! i)],
      importOrderViolation = Some \<lparr>node = d, vrange = alias_range d i\<rparr>\<rparr>"
  have 2: "?body (i, ?ss ! i) st1 = Inr st2"
    by (simp add: specifier_step_eq v st2_def)
  have "\<forall>e \<in> set (enumerate (Suc i) (drop (Suc i) ?ss)). local_name (snd e) \<noteq> ''CoreConstruct''"
    using last i by (auto simp: in_set_enumerate_eq)
  from for_of_slot_unchanged [OF this, of "file" d st2]
  obtain st3 where 3: "for_of ?body (enumerate (Suc i) (drop (Suc i) ?ss)) st2 = Inr st3"
    and slot: "importOrderViolation st3 = importOrderViolation st2" by blast
  have all: "for_of ?body (enumerate 0 ?ss) st = Inr st3"
    by (subst split) (simp add: for_of_append 1 2 3)
  from for_of_cache [OF all] have "importCache st3 = importCache st @ recorded file d"
    by (simp add: recorded_def flip: map_map)
  with slot have "st3 = \<lparr>importCache = importCache st @ recorded file d,
              importOrderViolation = Some \<lparr>node = d, vrange = alias_range d i\<rparr>\<rparr>"
    by (simp add: st2_def)
  with all show ?thesis by (simp add: on_ImportDeclaration_def)
qed

lemma imports_of_append: "imports_of file (xs @ ys) = imports_of file xs @ imports_of file ys"
  by (simp add: imports_of_def)

lemma imports_of_recorded: "imports_of file (recorded file d) = recorded file d"
  by (simp add: imports_of_def recorded_def cache_record_def)

lemma importNode_last_recorded:
  "specifiers d \<noteq> [] \<Longrightarrow> importNode (last (recorded file d)) = d"
  by (simp add: recorded_def cache_record_def last_map)

lemma on_ImportDeclaration_cache:
  "on_ImportDeclaration file d st = (rs, Inr st') \<Longrightarrow>
   importCache st' = importCache st @ recorded file d"
  by (auto simp: on_ImportDeclaration_def recorded_def dest!: for_of_cache simp flip: map_map)

lemma on_ImportDeclaration_empty:
  "specifiers d = [] \<Longrightarrow> on_ImportDeclaration file d st = ([], Inr st)"
  by (simp add: on_ImportDeclaration_def)

section \<open>The delete range of the isolation fix\<close>

lemma slice_text_removed:
  "fst v \<le> snd v \<Longrightarrow> src = take (fst v) src @ slice_text src v @ drop (snd v) src"
proof -
  assume "fst v \<le> snd v"
  then have "take (snd v) src = take (fst v) src @ take (snd v - fst v) (drop (fst v) src)"
    using take_add [of "fst v" "snd v - fst v" src] by simp
  then have "take (fst v) src @ slice_text src v = take (snd v) src"
    by (simp add: slice_text_def)
  then show ?thesis by (metis append_assoc append_take_drop_id)
qed

lemma slice_text_before:
  assumes "fst q \<le> snd q" "snd q \<le> fst v" "fst v \<le> length src"
  shows "slice_text (apply_removeRange src v) q = slice_text src q"
  using assms by (simp add: slice_text_def apply_removeRange_def drop_take min_def)

lemma slice_text_after:
  assumes "fst v \<le> snd v" "snd v \<le> fst q" "fst q \<le> snd q" "snd q \<le> length src"
  shows "slice_text (apply_removeRange src v) (fst q - (snd v - fst v), snd q - (snd v - fst v))
     = slice_text src q"
  using assms by (simp add: slice_text_def apply_removeRange_def min_def)

lemma document_order_nth:
  assumes "document_order src d" "j < length (specifiers d)"
  shows "fst (specifier_ranges d ! j) \<le> snd (specifier_ranges d ! j)"
    and "snd (specifier_ranges d ! j) \<le> length src"
  using assms by (simp_all add: document_order_def list_all_length specifier_ranges_def)

lemma document_order_less:
  assumes "document_order src d" "j < k" "k < length (specifiers d)"
  shows "snd (specifier_ranges d ! j) \<le> fst (specifier_ranges d ! k)"
  using assms by (simp add: document_order_def sorted_wrt_iff_nth_less specifier_ranges_def)

lemma alias_range_last:
  assumes "i < length (specifiers d)" "i = length (specifiers d) - 1"
  shows "alias_range d i = specifier_ranges d ! i"
  using assms by (simp add: alias_range_def specifier_ranges_def Let_def)

lemma alias_range_next:
  assumes "i + 1 < length (specifiers d)"
  shows "alias_range d i = (fst (specifier_ranges d ! i), fst (specifier_ranges d ! (i + 1)))"
proof -
  from assms have "i \<noteq> length (specifiers d) - 1" and "i < length (specifiers d)"
    by arith+
  with assms show ?thesis
    by (simp add: alias_range_def specifier_ranges_def Let_def)
qed

lemma alias_range_bounds:
  assumes o: "document_order src d" and i: "i < length (specifiers d)"
  shows "fst (alias_range d i) = fst (specifier_ranges d ! i)"
    and "fst (alias_range d i) \<le> snd (alias_range d i)"
    and "snd (alias_range d i) \<le> length src"
    and "i < j \<Longrightarrow> j < length (specifiers d) \<Longrightarrow>
          snd (alias_range d i) \<le> fst (specifier_ranges d ! j)"
proof -
  consider (final) "i = length (specifiers d) - 1" | (inner) "i + 1 < length (specifiers d)"
    using i by arith
  then have "fst (alias_range d i) = fst (specifier_ranges d ! i) \<and>
      fst (alias_range d i) \<le> snd (alias_range d i) \<and>
      snd (alias_range d i) \<le> length src \<and>
      (\<forall>j. i < j \<and> j < length (specifiers d) \<longrightarrow>
         snd (alias_range d i) \<le> fst (specifier_ranges d ! j))"
  proof cases
    case final
    have eq: "alias_range d i = specifier_ranges d ! i"
      using i final by (rule alias_range_last)
    have "\<not> (i < j \<and> j < length (specifiers d))" for j
      using final by arith
    with document_order_nth [OF o i] show ?thesis
      unfolding eq by blast
  next
    case inner
    have eq: "alias_range d i = (fst (specifier_ranges d ! i), fst (specifier_ranges d ! (i + 1)))"
      using inner by (rule alias_range_next)
    have 1: "fst (specifier_ranges d ! i) \<le> fst (specifier_ranges d ! (i + 1))"
      using document_order_nth(1) [OF o i] document_order_less [OF o _ inner, of i] by simp
    have 2: "fst (specifier_ranges d ! (i + 1)) \<le> length src"
      using document_order_nth [OF o inner] by simp
    have 3: "fst (specifier_ranges d ! (i + 1)) \<le> fst (specifier_ranges d ! j)"
      if "i < j" "j < length (specifiers d)" for j
    proof (cases "j = i + 1")
      case True
      then show ?thesis by simp
    next
      case False
      with that have lt: "i + 1 < j" by arith
      from document_order_less [OF o lt that(2)] document_order_nth(1) [OF o inner]
      show ?thesis by simp
    qed
    from 1 2 3 show ?thesis unfolding eq by simp
  qed
  then show "fst (alias_range d i) = fst (specifier_ranges d ! i)"
    and "fst (alias_range d i) \<le> snd (alias_range d i)"
    and "snd (alias_range d i) \<le> length src"
    and "i < j \<Longrightarrow> j < length (specifiers d) \<Longrightarrow>
          snd (alias_range d i) \<le> fst (specifier_ranges d ! j)"
    by simp_all
qed

lemma import_mixed_facts:
  "\<forall>s \<in> set (specifiers import_mixed). specifier_range s \<noteq> None"
  "Suc 0 < length (specifiers import_mixed)"
  "local_name (specifiers import_mixed ! Suc 0) = ''CoreConstruct''"
  "\<forall>j. Suc 0 < j \<and> j < length (specifiers import_mixed) \<longrightarrow>
       local_name (specifiers import_mixed ! j) \<noteq> ''CoreConstruct''"
  "alias_range import_mixed (Suc 0) = (12, 27)"
  "document_order src_mixed import_mixed"
  by (auto simp: import_mixed_def alias_range_def document_order_def specifier_ranges_def
      src_mixed_def nth_Cons split: nat.splits)

lemma import_last_facts:
  "\<forall>s \<in> set (specifiers import_last). specifier_range s \<noteq> None"
  "Suc 0 < length (specifiers import_last)"
  "local_name (specifiers import_last ! Suc 0) = ''CoreConstruct''"
  "\<forall>j. Suc 0 < j \<and> j < length (specifiers import_last) \<longrightarrow>
       local_name (specifiers import_last ! j) \<noteq> ''CoreConstruct''"
  "alias_range import_last (Suc 0) = (12, 25)"
  "document_order src_last import_last"
  by (auto simp: import_last_def alias_range_def document_order_def specifier_ranges_def
      src_last_def nth_Cons split: nat.splits)

text \<open>
  C2, as the claim states it, fails where the alias is the last specifier: for
  \<^verbatim>\<open>import { A, CoreConstruct } from 'm';\<close> the range is the specifier's own, (12, 25), whose
  text is \<^verbatim>\<open>CoreConstruct\<close>. The comma and the blank before it, from offset 10, stay in the
  text.
\<close>

theorem isolation_delete_range_counterexample:
  "snd (on_ImportDeclaration ''lib/a.ts'' import_last empty_state) =
     Inr \<lparr>importCache = recorded ''lib/a.ts'' import_last,
          importOrderViolation = Some \<lparr>node = import_last, vrange = (12, 25)\<rparr>\<rparr> \<and>
   slice_text src_last (12, 25) = ''CoreConstruct'' \<and>
   slice_text src_last (10, 25) = '', CoreConstruct'' \<and>
   apply_removeRange src_last (12, 25) = ''import { A,  } from 'm';'' \<and>
   apply_removeRange src_last (12, 25) \<noteq> apply_removeRange src_last (10, 25)"
  by (simp add: on_ImportDeclaration_def specifier_step_eq orderViolation_at_def
      import_last_def empty_state_def recorded_def cache_record_def src_last_def
      slice_text_def apply_removeRange_def)

text \<open>
  C2, amended. Take an import declaration with more than one specifier, each with a
  range, and let \<open>i\<close> be the index of its last specifier named \<^verbatim>\<open>CoreConstruct\<close>. The import
  listener stores the declaration with the range \<open>alias_range d i\<close>: the specifier's own
  range when it is the last of the list, otherwise from its start to the start of the
  next specifier. When the specifiers lie in the text in document order, the text splits
  into what is before the range, the text of the range and what is after it, and
  removing the range leaves the text of every other specifier as it was (those after it
  moved left by the length of the range).
\<close>

theorem isolation_delete_range:
  assumes ranges: "\<forall>s \<in> set (specifiers d). specifier_range s \<noteq> None"
    and i: "i < length (specifiers d)"
    and many: "1 < length (specifiers d)"
    and al: "local_name (specifiers d ! i) = ''CoreConstruct''"
    and last: "\<forall>j. i < j \<and> j < length (specifiers d) \<longrightarrow>
                 local_name (specifiers d ! j) \<noteq> ''CoreConstruct''"
  shows "snd (on_ImportDeclaration file d st) =
       Inr \<lparr>importCache = importCache st @ recorded file d,
            importOrderViolation = Some \<lparr>node = d, vrange = alias_range d i\<rparr>\<rparr> \<and>
     (document_order src d \<longrightarrow>
        (let v = alias_range d i; k = snd v - fst v in
           src = take (fst v) src @ slice_text src v @ drop (snd v) src \<and>
           (\<forall>j. j < i \<longrightarrow>
              slice_text (apply_removeRange src v) (specifier_ranges d ! j)
                = slice_text src (specifier_ranges d ! j)) \<and>
           (\<forall>j. i < j \<and> j < length (specifiers d) \<longrightarrow>
              slice_text (apply_removeRange src v)
                (fst (specifier_ranges d ! j) - k, snd (specifier_ranges d ! j) - k)
                = slice_text src (specifier_ranges d ! j))))"
proof (intro conjI impI)
  show "snd (on_ImportDeclaration file d st) =
       Inr \<lparr>importCache = importCache st @ recorded file d,
            importOrderViolation = Some \<lparr>node = d, vrange = alias_range d i\<rparr>\<rparr>"
    by (simp add: on_ImportDeclaration_alias [OF ranges i many al last])
next
  assume o: "document_order src d"
  note b = alias_range_bounds [OF o i]
  have before: "slice_text (apply_removeRange src (alias_range d i)) (specifier_ranges d ! j)
      = slice_text src (specifier_ranges d ! j)" if "j < i" for j
  proof -
    from that i have j: "j < length (specifiers d)" by simp
    from document_order_less [OF o that i] b(1)
    have "snd (specifier_ranges d ! j) \<le> fst (alias_range d i)" by simp
    moreover from b(2,3) have "fst (alias_range d i) \<le> length src" by simp
    ultimately show ?thesis
      using document_order_nth(1) [OF o j] by (intro slice_text_before) simp_all
  qed
  have after: "slice_text (apply_removeRange src (alias_range d i))
        (fst (specifier_ranges d ! j) - (snd (alias_range d i) - fst (alias_range d i)),
         snd (specifier_ranges d ! j) - (snd (alias_range d i) - fst (alias_range d i)))
      = slice_text src (specifier_ranges d ! j)" if "i < j" "j < length (specifiers d)" for j
    using b(2) b(4) [OF that] document_order_nth [OF o that(2)]
    by (intro slice_text_after) simp_all
  show "let v = alias_range d i; k = snd v - fst v in
           src = take (fst v) src @ slice_text src v @ drop (snd v) src \<and>
           (\<forall>j. j < i \<longrightarrow>
              slice_text (apply_removeRange src v) (specifier_ranges d ! j)
                = slice_text src (specifier_ranges d ! j)) \<and>
           (\<forall>j. i < j \<and> j < length (specifiers d) \<longrightarrow>
              slice_text (apply_removeRange src v)
                (fst (specifier_ranges d ! j) - k, snd (specifier_ranges d ! j) - k)
                = slice_text src (specifier_ranges d ! j))"
    unfolding Let_def
    using slice_text_removed [OF b(2), of src] before after
    by simp
qed

theorem isolation_delete_range_witness:
  "snd (on_ImportDeclaration ''lib/a.ts'' import_mixed empty_state) =
     Inr \<lparr>importCache = recorded ''lib/a.ts'' import_mixed,
          importOrderViolation = Some \<lparr>node = import_mixed, vrange = (12, 27)\<rparr>\<rparr> \<and>
   slice_text src_mixed (12, 27) = ''CoreConstruct, '' \<and>
   apply_removeRange src_mixed (12, 27) = ''import { A, B } from 'm';'' \<and>
   slice_text (apply_removeRange src_mixed (12, 27)) (9, 10) = ''A'' \<and>
   slice_text (apply_removeRange src_mixed (12, 27)) (12, 13) = ''B'' \<and>
   snd (on_ImportDeclaration ''lib/a.ts'' import_last empty_state) =
     Inr \<lparr>importCache = recorded ''lib/a.ts'' import_last,
          importOrderViolation = Some \<lparr>node = import_last, vrange = (12, 25)\<rparr>\<rparr> \<and>
   slice_text src_last (12, 25) = ''CoreConstruct'' \<and>
   slice_text (apply_removeRange src_last (12, 25)) (9, 10) = ''A''"
proof -
  have m: "1 < length (specifiers import_mixed)" and l: "1 < length (specifiers import_last)"
    by (simp_all add: import_mixed_def import_last_def)
  note a = isolation_delete_range
    [OF import_mixed_facts(1,2) m import_mixed_facts(3,4), of "''lib/a.ts''" empty_state src_mixed]
  note b = isolation_delete_range
    [OF import_last_facts(1,2) l import_last_facts(3,4), of "''lib/a.ts''" empty_state src_last]
  have sm: "slice_text src_mixed (12, 27) = ''CoreConstruct, ''"
    "slice_text src_mixed (9, 10) = ''A''"
    "slice_text src_mixed (27, 28) = ''B''"
    "specifier_ranges import_mixed ! 0 = (9, 10)"
    "specifier_ranges import_mixed ! 2 = (27, 28)"
    "length (specifiers import_mixed) = 3"
    by (simp_all add: src_mixed_def slice_text_def specifier_ranges_def import_mixed_def)
  have sl: "slice_text src_last (12, 25) = ''CoreConstruct''"
    "slice_text src_last (9, 10) = ''A''"
    "specifier_ranges import_last ! 0 = (9, 10)"
    by (simp_all add: src_last_def slice_text_def specifier_ranges_def import_last_def)
  have rm: "take 12 src_mixed @ drop 27 src_mixed = ''import { A, B } from 'm';''"
    by (simp add: src_mixed_def)
  from a have a1: "snd (on_ImportDeclaration ''lib/a.ts'' import_mixed empty_state) =
     Inr \<lparr>importCache = recorded ''lib/a.ts'' import_mixed,
          importOrderViolation = Some \<lparr>node = import_mixed, vrange = (12, 27)\<rparr>\<rparr>"
    by (simp add: import_mixed_facts(5) empty_state_def)
  have a2: "apply_removeRange src_mixed (12, 27) = ''import { A, B } from 'm';''"
    by (simp add: apply_removeRange_def rm)
  from a import_mixed_facts(6) have
    "\<forall>j. j < 1 \<longrightarrow> slice_text (apply_removeRange src_mixed (12, 27)) (specifier_ranges import_mixed ! j)
                = slice_text src_mixed (specifier_ranges import_mixed ! j)"
    "\<forall>j. Suc 0 < j \<and> j < 3 \<longrightarrow>
        slice_text (apply_removeRange src_mixed (12, 27))
                (fst (specifier_ranges import_mixed ! j) - 15, snd (specifier_ranges import_mixed ! j) - 15)
                = slice_text src_mixed (specifier_ranges import_mixed ! j)"
    by (simp_all add: import_mixed_facts(5) Let_def sm(6))
  then have a3: "slice_text (apply_removeRange src_mixed (12, 27)) (specifier_ranges import_mixed ! 0)
                = slice_text src_mixed (specifier_ranges import_mixed ! 0)"
    and a4: "slice_text (apply_removeRange src_mixed (12, 27))
                (fst (specifier_ranges import_mixed ! 2) - 15, snd (specifier_ranges import_mixed ! 2) - 15)
                = slice_text src_mixed (specifier_ranges import_mixed ! 2)"
    by simp_all
  from b have b1: "snd (on_ImportDeclaration ''lib/a.ts'' import_last empty_state) =
     Inr \<lparr>importCache = recorded ''lib/a.ts'' import_last,
          importOrderViolation = Some \<lparr>node = import_last, vrange = (12, 25)\<rparr>\<rparr>"
    by (simp add: import_last_facts(5) empty_state_def)
  from b import_last_facts(6) have
    "\<forall>j. j < 1 \<longrightarrow> slice_text (apply_removeRange src_last (12, 25)) (specifier_ranges import_last ! j)
                = slice_text src_last (specifier_ranges import_last ! j)"
    by (simp add: import_last_facts(5) Let_def)
  then have b3: "slice_text (apply_removeRange src_last (12, 25)) (specifier_ranges import_last ! 0)
                = slice_text src_last (specifier_ranges import_last ! 0)"
    by simp
  from a1 a2 a3 a4 b1 b3 show ?thesis
    by (simp add: sm sl)
qed

section \<open>Bindings of other files\<close>

lemma report_same:
  "imports_of file c = imports_of file c' \<Longrightarrow> report file c n r = report file c' n r"
  by (simp add: report_def qualifier_fix_def)

lemma reportImportOrderViolations_same:
  "same_for file s t \<Longrightarrow> reportImportOrderViolations file s = reportImportOrderViolations file t"
  by (auto simp: same_for_def reportImportOrderViolations_def Let_def split: option.splits)

lemma specifier_step_same:
  assumes "same_for file s t"
  shows "same_result file (specifier_step file d e s) (specifier_step file d e t)"
proof -
  obtain i sp where e: "e = (i, sp)" by (cases e)
  from assms show ?thesis
    by (cases "orderViolation_at d i sp (importOrderViolation t)")
      (simp_all add: e specifier_step_eq same_for_def imports_of_append)
qed

lemma for_of_same:
  "same_for file s t \<Longrightarrow>
   same_result file (for_of (specifier_step file d) es s) (for_of (specifier_step file d) es t)"
proof (induction es arbitrary: s t)
  case Nil
  then show ?case by simp
next
  case (Cons e es)
  from specifier_step_same [OF Cons.prems, of d e] Cons.IH show ?case
    by (cases "specifier_step file d e s"; cases "specifier_step file d e t") simp_all
qed

lemma create_same:
  assumes "same_for file s t"
  shows "fst (create file n s) = fst (create file n t) \<and>
     same_result file (snd (create file n s)) (snd (create file n t))"
proof (cases "string_includes file ''@aws-cdk/core''")
  case True
  with assms show ?thesis by (simp add: create_skipping)
next
  case False
  have slice: "imports_of file (importCache s) = imports_of file (importCache t)"
    using assms by (simp add: same_for_def)
  show ?thesis
  proof (cases n)
    case Program
    with assms show ?thesis by (simp add: create_listening [OF False] on_Program_def same_for_def)
  next
    case (ImportDeclaration d)
    with for_of_same [OF assms, of d] show ?thesis
      by (simp add: create_listening [OF False] on_ImportDeclaration_def)
  next
    case (ClassDeclaration c)
    with assms show ?thesis
      by (auto simp: create_listening [OF False] on_ClassDeclaration_def Let_def
          report_same [OF slice] reportImportOrderViolations_same [OF assms]
          split: option.splits expression.splits sum.splits)
  next
    case (Identifier i)
    with assms show ?thesis
      by (auto simp: create_listening [OF False] on_Identifier_def Let_def
          report_same [OF slice] reportImportOrderViolations_same [OF assms]
          split: option.splits type_node.splits entity_name.splits sum.splits)
  next
    case OtherNode
    with assms show ?thesis by (simp add: create_listening [OF False])
  qed
qed

text \<open>
  C8. Two runs that reach a file with states differing only in the bindings recorded for
  other files make the same reports, with the same fixes, for every stream of nodes of the
  file; they end in the same TypeError or in states that again differ only there.
\<close>

theorem other_files_do_not_interfere:
  "same_for file s t \<Longrightarrow>
   fst (lint_file file nodes s) = fst (lint_file file nodes t) \<and>
   same_result file (snd (lint_file file nodes s)) (snd (lint_file file nodes t))"
  unfolding lint_file_def
proof (induction nodes arbitrary: s t)
  case Nil
  then show ?case by simp
next
  case (Cons n ns)
  obtain rs res where s: "create file n s = (rs, res)" by (cases "create file n s")
  obtain rs' res' where t: "create file n t = (rs', res')" by (cases "create file n t")
  from create_same [OF Cons.prems, of n] s t
  have rs: "rs' = rs" and res: "same_result file res res'" by simp_all
  show ?case
  proof (cases res)
    case (Inl err)
    with res have "res' = Inl err" by (cases res') simp_all
    with Inl s t rs show ?thesis by simp
  next
    case (Inr s1)
    with res obtain t1 where t1: "res' = Inr t1" and same: "same_for file s1 t1"
      by (cases res') simp_all
    from Cons.IH [OF same] Inr t1 s t rs show ?thesis
      by (auto split: prod.splits)
  qed
qed

theorem other_files_do_not_interfere_witness:
  "same_for ''lib/a.ts'' other_file_state empty_state \<and>
   fst (lint_file ''lib/a.ts''
      [Program, ImportDeclaration import_constructs, ClassDeclaration class_extends_ns]
      other_file_state) =
   fst (lint_file ''lib/a.ts''
      [Program, ImportDeclaration import_constructs, ClassDeclaration class_extends_ns]
      empty_state) \<and>
   fst (lint_file ''lib/a.ts''
      [Program, ImportDeclaration import_constructs, ClassDeclaration class_extends_ns]
      empty_state) =
     [\<lparr>message = qualifier_message, report_node = ClassDeclaration class_extends_ns,
       report_fix = [replaceTextRange (18, 30) ''CoreConstruct'',
                     insertTextAfter import_constructs (separate_import aliased_import)]\<rparr>]"
proof -
  have s: "same_for ''lib/a.ts'' other_file_state empty_state"
    by (simp add: same_for_def other_file_state_def empty_state_def imports_of_def recorded_def cache_record_def
        import_core_def import_core_alias_def)
  have run: "fst (lint_file ''lib/a.ts''
      [Program, ImportDeclaration import_constructs, ClassDeclaration class_extends_ns]
      empty_state) =
     [\<lparr>message = qualifier_message, report_node = ClassDeclaration class_extends_ns,
       report_fix = [replaceTextRange (18, 30) ''CoreConstruct'',
                     insertTextAfter import_constructs (separate_import aliased_import)]\<rparr>]"
    by (simp add: lint_file_def create_def on_Program_def on_ImportDeclaration_def
        on_ClassDeclaration_def specifier_step_eq orderViolation_at_def
        import_constructs_def class_extends_ns_def empty_state_def
        cache_record_def report_def qualifier_fix_def imports_of_def replaceBy_addImport_def
        findImport_def aliased_import_def)
  from s run other_files_do_not_interfere [OF s] show ?thesis by simp
qed

section \<open>The last import of the isolation fix\<close>

lemma on_ImportDeclaration_pending_ok:
  assumes "pending_ok file st" "on_ImportDeclaration file d st = (rs, Inr st')"
  shows "pending_ok file st'"
proof (cases "specifiers d")
  case Nil
  with assms show ?thesis by (simp add: on_ImportDeclaration_empty)
next
  case (Cons s ss)
  then have "recorded file d \<noteq> []" by (simp add: recorded_def)
  with on_ImportDeclaration_cache [OF assms(2)] show ?thesis
    by (simp add: pending_ok_def imports_of_append imports_of_recorded)
qed

lemma reportImportOrderViolations_ok:
  "pending_ok file st \<Longrightarrow> \<exists>rs. reportImportOrderViolations file st = Inr rs"
  by (auto simp: pending_ok_def reportImportOrderViolations_def Let_def
      split: option.splits list.splits)


lemma create_pending_ok:
  assumes "\<not> string_includes file ''@aws-cdk/core''" "pending_ok file st"
  shows "snd (create file n st) \<noteq> Inl TypeError_importNode \<and>
     (\<forall>st'. snd (create file n st) = Inr st' \<longrightarrow> pending_ok file st')"
proof (cases n)
  case Program
  then show ?thesis
    by (simp add: create_listening [OF assms(1)] on_Program_def pending_ok_def)
next
  case (ImportDeclaration d)
  obtain rs res where r: "on_ImportDeclaration file d st = (rs, res)"
    by (cases "on_ImportDeclaration file d st")
  show ?thesis
  proof (cases res)
    case (Inl err)
    with r have "err = TypeError_range"
      by (auto simp: on_ImportDeclaration_def dest: for_of_error)
    with Inl r ImportDeclaration show ?thesis by (simp add: create_listening [OF assms(1)])
  next
    case (Inr st')
    with r on_ImportDeclaration_pending_ok [OF assms(2), of d rs st'] ImportDeclaration
    show ?thesis by (simp add: create_listening [OF assms(1)])
  qed
next
  case (ClassDeclaration c)
  with reportImportOrderViolations_ok [OF assms(2)] assms(2) show ?thesis
    by (auto simp: create_listening [OF assms(1)] on_ClassDeclaration_def Let_def
        split: option.splits expression.splits sum.splits)
next
  case (Identifier i)
  with reportImportOrderViolations_ok [OF assms(2)] assms(2) show ?thesis
    by (auto simp: create_listening [OF assms(1)] on_Identifier_def Let_def
        split: option.splits sum.splits)
next
  case OtherNode
  with assms(2) show ?thesis by (simp add: create_listening [OF assms(1)])
qed

lemma traverse_pending_ok:
  assumes "\<not> string_includes file ''@aws-cdk/core''"
  shows "pending_ok file st \<Longrightarrow>
     snd (traverse (create file) nodes st) \<noteq> Inl TypeError_importNode \<and>
     (\<forall>st'. snd (traverse (create file) nodes st) = Inr st' \<longrightarrow> pending_ok file st')"
proof (induction nodes arbitrary: st)
  case Nil
  then show ?case by simp
next
  case (Cons n ns)
  note step = create_pending_ok [OF assms Cons.prems, of n]
  show ?case
  proof (cases "snd (create file n st)")
    case (Inl err)
    with step show ?thesis by (simp only: snd_traverse_Cons) auto
  next
    case (Inr st1)
    with step have "pending_ok file st1" by simp
    from Cons.IH [OF this] Inr show ?thesis by (simp only: snd_traverse_Cons) simp
  qed
qed

text \<open>
  C10. The traversal of a file begins at its \<^verbatim>\<open>Program\<close> node. Whatever state the files
  before left behind and whatever nodes follow, the traversal never ends in the TypeError
  of \<^verbatim>\<open>lastImport.importNode\<close>; and in a file the rule does not skip, whenever the slot is
  set the file's part of the cache is not empty.
\<close>

theorem last_import_defined:
  "snd (lint_file file (Program # nodes) st) \<noteq> Inl TypeError_importNode \<and>
   (\<not> string_includes file ''@aws-cdk/core'' \<longrightarrow>
     (\<forall>st'. snd (lint_file file (Program # nodes) st) = Inr st' \<longrightarrow>
        importOrderViolation st' \<noteq> None \<longrightarrow> imports_of file (importCache st') \<noteq> []))"
proof (cases "string_includes file ''@aws-cdk/core''")
  case True
  show ?thesis unfolding lint_file_def traverse_skipping [OF True] using True by simp
next
  case False
  have "pending_ok file (st\<lparr>importOrderViolation := None\<rparr>)"
    by (simp add: pending_ok_def)
  from traverse_pending_ok [OF False this, of nodes] False show ?thesis
    by (auto simp: lint_file_def create_listening [OF False] on_Program_def pending_ok_def
        split: prod.splits)
qed

theorem last_import_defined_witness:
  "snd (lint_file ''lib/a.ts''
      (Program # [ImportDeclaration import_mixed, Identifier use_alias]) stale_state)
     \<noteq> Inl TypeError_importNode \<and>
   snd (lint_file ''lib/a.ts''
      (Program # [ImportDeclaration import_mixed, Identifier use_alias]) stale_state) =
     Inr \<lparr>importCache = recorded ''lib/b.ts'' import_core @ recorded ''lib/a.ts'' import_mixed,
          importOrderViolation = Some \<lparr>node = import_mixed, vrange = (12, 27)\<rparr>\<rparr> \<and>
   imports_of ''lib/a.ts''
     (recorded ''lib/b.ts'' import_core @ recorded ''lib/a.ts'' import_mixed) \<noteq> []"
proof -
  have run: "snd (lint_file ''lib/a.ts''
      (Program # [ImportDeclaration import_mixed, Identifier use_alias]) stale_state) =
     Inr \<lparr>importCache = recorded ''lib/b.ts'' import_core @ recorded ''lib/a.ts'' import_mixed,
          importOrderViolation = Some \<lparr>node = import_mixed, vrange = (12, 27)\<rparr>\<rparr>"
    by (simp add: lint_file_def create_def on_Program_def on_ImportDeclaration_def
        on_Identifier_def specifier_step_eq orderViolation_at_def reportImportOrderViolations_def
        import_mixed_def use_alias_def stale_state_def recorded_def cache_record_def
        imports_of_def import_core_def)
  from last_import_defined
    [of "''lib/a.ts''" "[ImportDeclaration import_mixed, Identifier use_alias]" stale_state] run
  show ?thesis by (simp add: not_core_a)
qed

section \<open>While the slot is set\<close>











section \<open>The slot holds the most recent import\<close>




section \<open>When an isolation violation is reported\<close>




end
